theory Spec2Isabelle
  imports Complex_Main "HOL-Library.AList" "HOL-Library.Sublist"
    "HOL-Library.Char_ord" "HOL-Library.List_Lexorder"
begin

section \<open>Numbers, errors and objects\<close>

text \<open>
  The plugin works on JavaScript numbers. Every number it divides is a byte count or a
  file count, that is a non-negative integer, so the operands are modelled as \<open>nat\<close>.
  A quotient is a \<open>jsnum\<close>: a finite value (kept as the exact rational that the
  double stands for), \<open>Infinity\<close> (a positive number divided by zero) or \<open>NaN\<close>
  (zero divided by zero). JavaScript division never throws. Sums of byte counts are
  exact as long as they stay below \<open>2^53\<close>, which the model takes for granted.
\<close>

datatype jsnum = Fin rat | PInf | NaN

definition jsdiv :: "nat \<Rightarrow> nat \<Rightarrow> jsnum" where
  "jsdiv a b = (if b = 0 then (if a = 0 then NaN else PInf) else Fin (of_nat a / of_nat b))"

text \<open>
  Reading or assigning a property of \<open>undefined\<close> throws a \<open>TypeError\<close>; it is the
  only exception the modelled code can raise.
\<close>

datatype error = TypeError

text \<open>
  A plain object used as a dictionary is an association list in insertion order:
  \<open>map_of\<close> reads a key, \<open>AList.update\<close> assigns one (in place when the key exists, at
  the end otherwise), \<open>own_key\<close> is \<open>hasOwnProperty\<close>. The special key \<open>__proto__\<close>
  is left out. JavaScript enumerates integer-like keys before the others; the properties
  of the loops below hold for every list, so for every order of enumeration.
\<close>

definition own_key :: "('k \<times> 'v) list \<Rightarrow> 'k \<Rightarrow> bool" where
  "own_key obj k = (map_of obj k \<noteq> None)"

section \<open>The library: \<open>_.has\<close> and \<open>_.sum\<close>\<close>

text \<open>
  The plugin calls lodash; no version of it is fixed by the repository. Two of its
  functions behave in ways the code depends on, and differently from one version to
  another. What differs, and what is decided by regular expressions of the library, is
  kept in a parameter \<open>L\<close> of the functions below:
  \<^item> \<open>sums_objects\<close>: \<open>_.sum\<close> of a plain object is the sum of its values (lodash 3) or
    0 (lodash 4, where only arrays are summed);
  \<^item> \<open>keeps_empty_keys\<close>: the path read from a dotted name keeps its empty keys (as in
    \<open>a..b\<close>, late lodash 4) or drops them (lodash 3, early lodash 4);
  \<^item> \<open>bracket_deep\<close>, \<open>bracket_path\<close>: what \<open>reIsDeepProp\<close> and \<open>rePropName\<close> make of a
    name with square brackets.
\<close>

record lodash =
  sums_objects :: bool
  keeps_empty_keys :: bool
  bracket_deep :: "string \<Rightarrow> bool"
  bracket_path :: "string \<Rightarrow> string list"

text \<open>
  \<open>_.has(object, path)\<close>, from lodash 3.7 on (the first version with \<open>_.get\<close>), does not
  only test for an own key: a string that is not an own key and that \<open>reIsDeepProp\<close>
  matches (it holds a dot or a bracket group) is read as a path, and the path is
  followed through the values. The values are seen as far as \<open>hasOwnProperty\<close> can tell
  them apart: a number has no own property, a string has \<open>length\<close> and its indices, an
  object has its keys.
\<close>

datatype jsval = JNum | JStr string | JObj "(string \<times> jsval) list"

definition is_digit :: "char \<Rightarrow> bool" where
  "is_digit c = (let n = (of_char c :: nat) in 48 \<le> n \<and> n \<le> 57)"

definition decimal :: "string \<Rightarrow> nat" where
  "decimal k = foldl (\<lambda>a c. 10 * a + ((of_char c :: nat) - 48)) 0 k"

text \<open>An index of a string of length \<open>n\<close>: a canonical decimal numeral below \<open>n\<close>.\<close>

definition is_index :: "string \<Rightarrow> nat \<Rightarrow> bool" where
  "is_index k n =
     (k \<noteq> [] \<and> list_all is_digit k \<and> (k = ''0'' \<or> hd k \<noteq> CHR ''0'') \<and> decimal k < n)"

fun own_property :: "jsval \<Rightarrow> string \<Rightarrow> bool" where
  "own_property JNum k = False"
| "own_property (JStr s) k = (k = ''length'' \<or> is_index k (length s))"
| "own_property (JObj ps) k = (map_of ps k \<noteq> None)"

fun property :: "jsval \<Rightarrow> string \<Rightarrow> jsval option" where
  "property JNum k = None"
| "property (JStr s) k =
     (if k = ''length'' then Some JNum
      else if is_index k (length s) then Some (JStr [s ! decimal k]) else None)"
| "property (JObj ps) k = map_of ps k"

text \<open>
  The walk along a path: every key must be an own property of the value reached so far.
  (lodash 3 tests only the last key with \<open>hasOwnProperty\<close> and reads the keys before it
  with plain property access; the two agree unless a key names an inherited property
  such as \<open>constructor\<close>, which the values here do not carry.) An empty path has nothing.
\<close>

primrec has_path :: "string list \<Rightarrow> jsval \<Rightarrow> bool" where
  "has_path [] v = False"
| "has_path (k # ks) v =
     (own_property v k \<and>
      (ks = [] \<or> (case property v k of None \<Rightarrow> False | Some v' \<Rightarrow> has_path ks v')))"

fun split_on :: "char \<Rightarrow> string \<Rightarrow> string list" where
  "split_on sep [] = [[]]"
| "split_on sep (c # cs) =
     (if c = sep then [] # split_on sep cs
      else (case split_on sep cs of [] \<Rightarrow> [[c]] | w # ws \<Rightarrow> (c # w) # ws))"

text \<open>
  \<open>reIsDeepProp\<close> matches a dot anywhere, or a bracket group, which needs a \<open>[\<close>. The
  keys \<open>rePropName\<close> reads from a name without brackets are its parts between the dots.
\<close>

definition is_deep :: "lodash \<Rightarrow> string \<Rightarrow> bool" where
  "is_deep L key =
     (CHR ''.'' \<in> set key \<or> (CHR ''['' \<in> set key \<and> bracket_deep L key))"

definition to_path :: "lodash \<Rightarrow> string \<Rightarrow> string list" where
  "to_path L key =
     (if CHR ''['' \<in> set key \<or> CHR '']'' \<in> set key then bracket_path L key
      else if keeps_empty_keys L then split_on CHR ''.'' key
      else filter (\<lambda>k. k \<noteq> []) (split_on CHR ''.'' key))"

definition lodash_has :: "lodash \<Rightarrow> jsval \<Rightarrow> string \<Rightarrow> bool" where
  "lodash_has L object key =
     (own_property object key \<or> (is_deep L key \<and> has_path (to_path L key) object))"

section \<open>Data model\<close>

text \<open>The \<open>data\<close> object that \<open>gather\<close> hands to \<open>record\<close>: \<open>{size, gzipSize}\<close>.\<close>

record variant =
  size_v :: nat
  gzipSize :: nat

text \<open>An entry of the \<open>files\<close> map. A property that was never assigned is \<open>None\<close>.\<close>

record FileEntry =
  name :: string
  minified :: "variant option"
  unminified :: "variant option"
  minificationSizeRatio :: "jsnum option"
  compressionSizeRatio :: "jsnum option"

record counts =
  minified_c :: nat
  unminified_c :: nat
  both_c :: nat

record sizes =
  minified_s :: nat
  unminified_s :: nat
  src :: nat
  dist :: nat
  gzip :: nat

record ratios =
  count_r :: jsnum
  size_r :: jsnum

text \<open>An entry of the \<open>extensions\<close> map.\<close>

record ExtensionBucket =
  count :: counts
  size_e :: sizes
  minificationRatio :: "ratios option"
  compressionRatio :: "jsnum option"

definition emptyExtension :: ExtensionBucket where
  "emptyExtension =
     \<lparr>count = \<lparr>minified_c = 0, unminified_c = 0, both_c = 0\<rparr>,
      size_e = \<lparr>minified_s = 0, unminified_s = 0, src = 0, dist = 0, gzip = 0\<rparr>,
      minificationRatio = None,
      compressionRatio = None\<rparr>"

type_synonym files_map = "(string \<times> FileEntry) list"
type_synonym extensions_map = "(string \<times> ExtensionBucket) list"

text \<open>The two module-level maps, \<open>files\<close> and \<open>extensions\<close>.\<close>

record state =
  files :: files_map
  extensions :: extensions_map

definition init_state :: state where
  "init_state = \<lparr>files = [], extensions = [(''*'', emptyExtension)]\<rparr>"

text \<open>
  The two maps as \<open>_.has\<close> sees them: every object with the properties that were
  assigned to it.
\<close>

definition opt_property :: "string \<Rightarrow> 'a option \<Rightarrow> ('a \<Rightarrow> jsval) \<Rightarrow> (string \<times> jsval) list" where
  "opt_property k v f = (case v of None \<Rightarrow> [] | Some x \<Rightarrow> [(k, f x)])"

definition variant_val :: "variant \<Rightarrow> jsval" where
  "variant_val v = JObj [(''size'', JNum), (''gzipSize'', JNum)]"

definition entry_val :: "FileEntry \<Rightarrow> jsval" where
  "entry_val f =
     JObj ([(''name'', JStr (name f))] @
           opt_property ''minified'' (minified f) variant_val @
           opt_property ''unminified'' (unminified f) variant_val @
           opt_property ''minificationSizeRatio'' (minificationSizeRatio f) (\<lambda>x. JNum) @
           opt_property ''compressionSizeRatio'' (compressionSizeRatio f) (\<lambda>x. JNum))"

definition files_val :: "files_map \<Rightarrow> jsval" where
  "files_val fs = JObj (map (\<lambda>(k, f). (k, entry_val f)) fs)"

definition bucket_val :: "ExtensionBucket \<Rightarrow> jsval" where
  "bucket_val b =
     JObj ([(''count'', JObj [(''minified'', JNum), (''unminified'', JNum), (''both'', JNum)]),
            (''size'', JObj [(''minified'', JNum), (''unminified'', JNum), (''src'', JNum),
                            (''dist'', JNum), (''gzip'', JNum)])] @
           opt_property ''minificationRatio'' (minificationRatio b)
             (\<lambda>r. JObj [(''count'', JNum), (''size'', JNum)]) @
           opt_property ''compressionRatio'' (compressionRatio b) (\<lambda>x. JNum))"

definition extensions_val :: "extensions_map \<Rightarrow> jsval" where
  "extensions_val exts = JObj (map (\<lambda>(k, b). (k, bucket_val b)) exts)"

section \<open>Normalizer\<close>

text \<open>
  \<open>minifiedName\<close> is a regular expression; the default \<open>/\.min/\<close> matches the literal
  text \<open>.min\<close> anywhere in the name. The model keeps the marker as that literal text.
  The expression has no \<open>g\<close> flag, so \<open>test\<close> keeps no position between calls and
  \<open>replace\<close> rewrites the leftmost match only.
\<close>

record options =
  minifiedName :: string
  verbose :: bool

definition default_options :: options where
  "default_options = \<lparr>minifiedName = ''.min'', verbose = False\<rparr>"

fun regexp_test :: "string \<Rightarrow> string \<Rightarrow> bool" where
  "regexp_test pat [] = (pat = [])"
| "regexp_test pat (c # cs) = (prefix pat (c # cs) \<or> regexp_test pat cs)"

fun replace_first :: "string \<Rightarrow> string \<Rightarrow> string \<Rightarrow> string" where
  "replace_first pat rep [] = (if pat = [] then rep else [])"
| "replace_first pat rep (c # cs) =
     (if prefix pat (c # cs) then rep @ drop (length pat) (c # cs)
      else c # replace_first pat rep cs)"

definition normalizeFilename :: "options \<Rightarrow> string \<Rightarrow> string" where
  "normalizeFilename opts filename = replace_first (minifiedName opts) [] filename"

definition isMinified :: "options \<Rightarrow> string \<Rightarrow> bool" where
  "isMinified opts filename = regexp_test (minifiedName opts) filename"

section \<open>Ingest\<close>

text \<open>
  \<open>record\<close>, the function nested in \<open>gather\<close> (\<open>record\<close> is a keyword here, hence the
  suffix). The entry is created with its \<open>name\<close> only, unless \<open>_.has\<close> finds the
  normalized name; then the variant is assigned under \<open>minKey\<close> of
  \<open>files[normalized]\<close>, which throws when there is no such entry.
\<close>

definition new_entry :: "string \<Rightarrow> FileEntry" where
  "new_entry normalized =
     \<lparr>name = normalized, minified = None, unminified = None,
      minificationSizeRatio = None, compressionSizeRatio = None\<rparr>"

definition record_file ::
  "lodash \<Rightarrow> options \<Rightarrow> files_map \<Rightarrow> string \<Rightarrow> variant \<Rightarrow> error + files_map" where
  "record_file L opts fs nm data =
     (let normalized = normalizeFilename opts nm;
          min = isMinified opts nm;
          fs1 = (if \<not> lodash_has L (files_val fs) normalized
                 then AList.update normalized (new_entry normalized) fs
                 else fs)
      in case map_of fs1 normalized of
           None \<Rightarrow> Inl TypeError
         | Some entry \<Rightarrow>
             Inr (AList.update normalized
                    (if min then entry\<lparr>minified := Some data\<rparr>
                     else entry\<lparr>unminified := Some data\<rparr>) fs1))"

text \<open>
  A file of the stream: its relative path and its contents (\<open>None\<close> when \<open>isNull()\<close>).
  \<open>gzipSize.sync\<close> is a library call and stays a parameter, \<open>gz\<close>.
\<close>

record vinyl =
  relative :: string
  contents :: "string option"

definition gather ::
  "lodash \<Rightarrow> (string \<Rightarrow> nat) \<Rightarrow> options \<Rightarrow> files_map \<Rightarrow> vinyl \<Rightarrow> error + files_map" where
  "gather L gz opts fs file =
     (case contents file of
        None \<Rightarrow> Inr fs
      | Some c \<Rightarrow>
          record_file L opts fs (relative file) \<lparr>size_v = length c, gzipSize = gz c\<rparr>)"

section \<open>Per-file ratios\<close>

text \<open>\<open>_.get(file, 'minified.size', 0)\<close>: the size when the variant is there, else 0.\<close>

definition get_size :: "variant option \<Rightarrow> nat" where
  "get_size v = (case v of None \<Rightarrow> 0 | Some d \<Rightarrow> size_v d)"

text \<open>
  \<open>file[(minified ? 'minified' : 'unminified')]\<close>: the variant chosen by the truthiness of
  the minified size. Reading \<open>.gzipSize\<close> of a missing variant throws.
\<close>

definition best_variant :: "FileEntry \<Rightarrow> nat \<Rightarrow> variant option" where
  "best_variant file minified' = (if minified' \<noteq> 0 then minified file else unminified file)"

definition determineCompressionSizeRatio :: "FileEntry \<Rightarrow> error + FileEntry" where
  "determineCompressionSizeRatio file =
     (let minified' = get_size (minified file);
          unminified' = get_size (unminified file)
      in case best_variant file minified' of
           None \<Rightarrow> Inl TypeError
         | Some v \<Rightarrow>
             (let compressed = gzipSize v;
                  file1 = (if unminified' \<noteq> 0 \<and> minified' \<noteq> 0
                           then file\<lparr>minificationSizeRatio := Some (jsdiv minified' unminified')\<rparr>
                           else file)
              in Inr (file1\<lparr>compressionSizeRatio :=
                        Some (jsdiv compressed
                               (if unminified' \<noteq> 0 then unminified' else minified'))\<rparr>)))"

section \<open>Extension aggregation\<close>

text \<open>
  \<open>_.last(name.split('.')).toLowerCase()\<close>. \<open>split\<close> never returns an empty array,
  so \<open>_.last\<close> is defined. Names are byte strings and \<open>toLowerCase\<close> is the ASCII case
  mapping.
\<close>

definition lower_char :: "char \<Rightarrow> char" where
  "lower_char c =
     (let n = (of_char c :: nat) in if 65 \<le> n \<and> n \<le> 90 then char_of (n + 32) else c)"

definition toLowerCase :: "string \<Rightarrow> string" where
  "toLowerCase s = map lower_char s"

definition extension_of :: "string \<Rightarrow> string" where
  "extension_of nm = toLowerCase (last (split_on CHR ''.'' nm))"

text \<open>
  The body of the inner \<open>_.each(['*', extension], ...)\<close> on one bucket. The three
  \<open>if\<close>s on the counters are kept in the source's order.
\<close>

definition fold_entry :: "FileEntry \<Rightarrow> nat \<Rightarrow> nat \<Rightarrow> ExtensionBucket \<Rightarrow> error + ExtensionBucket" where
  "fold_entry data unminified' minified' entry =
     (case best_variant data minified' of
        None \<Rightarrow> Inl TypeError
      | Some v \<Rightarrow>
          (let s = size_e entry;
               s' = s\<lparr>unminified_s := unminified_s s + unminified',
                      minified_s := minified_s s + minified',
                      src := src s + (if unminified' \<noteq> 0 then unminified' else minified'),
                      dist := dist s + (if minified' \<noteq> 0 then minified' else unminified'),
                      gzip := gzip s + gzipSize v\<rparr>;
               c = count entry;
               c1 = (if unminified' \<noteq> 0 \<and> \<not> minified' \<noteq> 0
                     then c\<lparr>unminified_c := unminified_c c + 1\<rparr> else c);
               c2 = (if \<not> unminified' \<noteq> 0 \<and> minified' \<noteq> 0
                     then c1\<lparr>minified_c := minified_c c1 + 1\<rparr> else c1);
               c3 = (if unminified' \<noteq> 0 \<and> minified' \<noteq> 0
                     then c2\<lparr>both_c := both_c c2 + 1\<rparr> else c2)
           in Inr (entry\<lparr>size_e := s', count := c3\<rparr>)))"

text \<open>One turn of the inner loop: \<open>extensions[extension]\<close> is read, then mutated.\<close>

definition each_target ::
  "FileEntry \<Rightarrow> nat \<Rightarrow> nat \<Rightarrow> string \<Rightarrow> extensions_map \<Rightarrow> error + extensions_map" where
  "each_target data unminified' minified' key exts =
     (case map_of exts key of
        None \<Rightarrow> Inl TypeError
      | Some entry \<Rightarrow>
          (case fold_entry data unminified' minified' entry of
             Inl e \<Rightarrow> Inl e
           | Inr entry' \<Rightarrow> Inr (AList.update key entry' exts)))"

text \<open>
  Lines 149 to 151: the bucket of an extension that \<open>_.has\<close> does not find starts
  empty.
\<close>

definition ensure_bucket :: "lodash \<Rightarrow> string \<Rightarrow> extensions_map \<Rightarrow> extensions_map" where
  "ensure_bucket L extension exts =
     (if \<not> lodash_has L (extensions_val exts) extension
      then AList.update extension emptyExtension exts else exts)"

text \<open>The callback of \<open>_.forOwn(files, ...)\<close> for one file.\<close>

definition process_file ::
  "lodash \<Rightarrow> string \<Rightarrow> FileEntry \<Rightarrow> extensions_map \<Rightarrow> error + (FileEntry \<times> extensions_map)" where
  "process_file L nm data exts =
     (case determineCompressionSizeRatio data of
        Inl e \<Rightarrow> Inl e
      | Inr data' \<Rightarrow>
          (let extension = extension_of nm;
               exts1 = ensure_bucket L extension exts;
               unminified' = get_size (unminified data');
               minified' = get_size (minified data')
           in case each_target data' unminified' minified' ''*'' exts1 of
                Inl e \<Rightarrow> Inl e
              | Inr exts2 \<Rightarrow>
                  (case each_target data' unminified' minified' extension exts2 of
                     Inl e \<Rightarrow> Inl e
                   | Inr exts3 \<Rightarrow> Inr (data', exts3))))"

fun forOwn_files ::
  "lodash \<Rightarrow> files_map \<Rightarrow> extensions_map \<Rightarrow> error + (files_map \<times> extensions_map)" where
  "forOwn_files L [] exts = Inr ([], exts)"
| "forOwn_files L ((nm, data) # rest) exts =
     (case process_file L nm data exts of
        Inl e \<Rightarrow> Inl e
      | Inr (data', exts') \<Rightarrow>
          (case forOwn_files L rest exts' of
             Inl e \<Rightarrow> Inl e
           | Inr (rest', exts'') \<Rightarrow> Inr ((nm, data') # rest', exts'')))"

definition postProcessFiles :: "lodash \<Rightarrow> state \<Rightarrow> error + state" where
  "postProcessFiles L s =
     (case forOwn_files L (files s) (extensions s) of
        Inl e \<Rightarrow> Inl e
      | Inr (fs, es) \<Rightarrow> Inr \<lparr>files = fs, extensions = es\<rparr>)"

section \<open>Extension-level ratios\<close>

text \<open>
  \<open>sum_count\<close> is \<open>_.sum(_.values(data.count))\<close>, the sum of the three counters, as
  \<open>extensionRow\<close> computes it. Line 180 passes the object itself,
  \<open>_.sum(data.count)\<close>: the same sum where \<open>_.sum\<close> sums objects, and 0 where it does
  not.
\<close>

definition sum_count :: "counts \<Rightarrow> nat" where
  "sum_count c = minified_c c + unminified_c c + both_c c"

definition sum_object :: "lodash \<Rightarrow> counts \<Rightarrow> nat" where
  "sum_object L c = (if sums_objects L then sum_count c else 0)"

definition set_ratios :: "lodash \<Rightarrow> ExtensionBucket \<Rightarrow> ExtensionBucket" where
  "set_ratios L data =
     (let totalCount = sum_object L (count data)
      in data\<lparr>minificationRatio :=
                 Some \<lparr>count_r = jsdiv (minified_c (count data) + both_c (count data)) totalCount,
                       size_r = jsdiv (dist (size_e data)) (src (size_e data))\<rparr>,
               compressionRatio := Some (jsdiv (gzip (size_e data)) (src (size_e data)))\<rparr>)"

definition postProcessExtensions :: "lodash \<Rightarrow> state \<Rightarrow> state" where
  "postProcessExtensions L s =
     s\<lparr>extensions := map (\<lambda>(k, data). (k, set_ratios L data)) (extensions s)\<rparr>"

text \<open>Lines 204 and 205 of \<open>report\<close>: aggregation, then the extension ratios.\<close>

definition aggregate :: "lodash \<Rightarrow> state \<Rightarrow> error + state" where
  "aggregate L s =
     (case postProcessFiles L s of
        Inl e \<Rightarrow> Inl e
      | Inr s1 \<Rightarrow> Inr (postProcessExtensions L s1))"

section \<open>Reporter\<close>

text \<open>
  What \<open>report\<close> writes is kept as a list of structured lines. Formatting done by
  libraries (\<open>prettyBytes\<close>, \<open>toFixed\<close>, \<open>pluralize\<close>, \<open>chalk\<close>, \<open>cli-table\<close>,
  \<open>_.startCase\<close>) is not unfolded: a cell says which formatter received which number,
  and \<open>Dash\<close> is the placeholder \<open>--\<close>. When a step throws, the model returns the error
  alone.
\<close>

datatype cell = Text string | Number nat | Bytes nat | Percent jsnum | Dash

datatype log_line =
    GutilLog string
  | Log string
  | LogFileCount nat
  | LogMissing nat nat
  | LogMissingFile string
  | LogAllMinified
  | LogTable "string list" "cell list list"

fun is_table :: "log_line \<Rightarrow> bool" where
  "is_table (LogTable head rows) = True"
| "is_table other = False"

text \<open>\<open>print\<close>: \<open>num ? prettyBytes(num) : '--'\<close>, where \<open>num\<close> may be \<open>undefined\<close>.\<close>

definition print_bytes :: "nat option \<Rightarrow> cell" where
  "print_bytes num = (case num of None \<Rightarrow> Dash | Some n \<Rightarrow> if n \<noteq> 0 then Bytes n else Dash)"

text \<open>Truthiness of a number: \<open>0\<close> and \<open>NaN\<close> are falsy, \<open>Infinity\<close> is not.\<close>

fun truthy :: "jsnum \<Rightarrow> bool" where
  "truthy (Fin q) = (q \<noteq> 0)"
| "truthy PInf = True"
| "truthy NaN = False"

text \<open>\<open>printPerc\<close>: \<open>num ? (100 * num).toFixed(0) + '%' : '--'\<close>.\<close>

definition printPerc :: "jsnum option \<Rightarrow> cell" where
  "printPerc num = (case num of None \<Rightarrow> Dash | Some x \<Rightarrow> if truthy x then Percent x else Dash)"

text \<open>\<open>a || b\<close> on two optional numbers.\<close>

definition or_else :: "nat option \<Rightarrow> nat option \<Rightarrow> nat option" where
  "or_else a b = (case a of None \<Rightarrow> b | Some n \<Rightarrow> if n \<noteq> 0 then a else b)"

definition fileRow :: "files_map \<Rightarrow> string \<Rightarrow> error + cell list" where
  "fileRow fs filename =
     (case map_of fs filename of
        None \<Rightarrow> Inl TypeError
      | Some f \<Rightarrow>
          (let size' = map_option size_v (unminified f);
               minSize = map_option size_v (minified f);
               gzipSize' = map_option gzipSize (unminified f);
               minGzipSize = map_option gzipSize (minified f)
           in Inr [Text filename, print_bytes size', print_bytes minSize,
                   print_bytes gzipSize', print_bytes minGzipSize,
                   printPerc (minificationSizeRatio f), printPerc (compressionSizeRatio f),
                   print_bytes (or_else minGzipSize gzipSize')]))"

definition extensionRow :: "extensions_map \<Rightarrow> string \<Rightarrow> error + cell list" where
  "extensionRow exts extension =
     (case map_of exts extension of
        None \<Rightarrow> Inl TypeError
      | Some data \<Rightarrow>
          (case minificationRatio data of
             None \<Rightarrow> Inl TypeError
           | Some r \<Rightarrow>
               Inr [Text extension, Number (sum_count (count data)),
                    print_bytes (Some (unminified_s (size_e data))),
                    print_bytes (Some (minified_s (size_e data))),
                    print_bytes (Some (gzip (size_e data))),
                    printPerc (Some (size_r r)), printPerc (compressionRatio data),
                    print_bytes (Some (gzip (size_e data)))]))"

text \<open>\<open>_.each(keys, row)\<close>: the rows in order, stopping at the first throw.\<close>

fun each_row :: "('a \<Rightarrow> error + 'b) \<Rightarrow> 'a list \<Rightarrow> error + 'b list" where
  "each_row f [] = Inr []"
| "each_row f (x # xs) =
     (case f x of
        Inl e \<Rightarrow> Inl e
      | Inr r \<Rightarrow> (case each_row f xs of Inl e \<Rightarrow> Inl e | Inr rs \<Rightarrow> Inr (r # rs)))"

definition file_columns :: "string list" where
  "file_columns = [''file'', ''size'', ''minified size'', ''gzipped size'', ''min+gzip size'',
     ''minification ratio'', ''compression ratio'', ''bytes over wire'']"

definition extension_columns :: "string list" where
  "extension_columns = [''extension'', ''count'', ''size'', ''minified size'', ''best gzip size'',
     ''minification ratio'', ''compression ratio'', ''bytes over wire'']"

definition report :: "lodash \<Rightarrow> state \<Rightarrow> error + (state \<times> log_line list)" where
  "report L s =
     (let filenames = map fst (files s)
      in if length filenames = 0 then Inr (s, [GutilLog ''no data''])
         else
           (case aggregate L s of
              Inl e \<Rightarrow> Inl e
            | Inr s' \<Rightarrow>
                (let sortedFiles = sort filenames;
                     sortedExtensions = sort (removeAll ''*'' (map fst (extensions s')));
                     fileCount = length filenames;
                     needsMinification = filter (\<lambda>data. minified data = None) (map snd (files s'));
                     missing =
                       (if length needsMinification \<noteq> 0
                        then LogMissing (length needsMinification) fileCount
                               # map (\<lambda>file. LogMissingFile (name file)) needsMinification
                        else [LogAllMinified])
                 in case each_row (fileRow (files s')) sortedFiles of
                      Inl e \<Rightarrow> Inl e
                    | Inr fileRows \<Rightarrow>
                        (case each_row (extensionRow (extensions s')) sortedExtensions of
                           Inl e \<Rightarrow> Inl e
                         | Inr extensionRows \<Rightarrow>
                             (case extensionRow (extensions s') ''*'' of
                                Inl e \<Rightarrow> Inl e
                              | Inr overallRow \<Rightarrow>
                                  Inr (s',
                                    [LogFileCount fileCount, Log []] @ missing @
                                    [Log [], Log ''File Statistics'',
                                     LogTable file_columns fileRows,
                                     Log ''Extension Statistics:'',
                                     LogTable extension_columns extensionRows,
                                     Log ''Overall Statistics:'',
                                     LogTable extension_columns [overallRow],
                                     Log []]))))))"

section \<open>Notions used in the statements\<close>

text \<open>\<open>through.obj(gather, report)\<close> calls \<open>gather\<close> on each file of the stream, in order.\<close>

fun ingest ::
  "lodash \<Rightarrow> (string \<Rightarrow> nat) \<Rightarrow> options \<Rightarrow> files_map \<Rightarrow> vinyl list \<Rightarrow> error + files_map" where
  "ingest L gz opts fs [] = Inr fs"
| "ingest L gz opts fs (file # stream) =
     (case gather L gz opts fs file of
        Inl e \<Rightarrow> Inl e
      | Inr fs' \<Rightarrow> ingest L gz opts fs' stream)"

text \<open>
  The classification of a file by the sizes the fold reads (\<open>_.get\<close> with default 0): one
  counter goes up, chosen by which of the two sizes are non-zero; none when both are 0.
\<close>

definition classify_increment :: "nat \<Rightarrow> nat \<Rightarrow> counts \<Rightarrow> counts" where
  "classify_increment unminified' minified' c =
     (if unminified' \<noteq> 0 \<and> minified' \<noteq> 0 then c\<lparr>both_c := both_c c + 1\<rparr>
      else if minified' \<noteq> 0 then c\<lparr>minified_c := minified_c c + 1\<rparr>
      else if unminified' \<noteq> 0 then c\<lparr>unminified_c := unminified_c c + 1\<rparr>
      else c)"

text \<open>The bucket of a key before the fold of a file: the stored one, or the empty one.\<close>

definition bucket_or_empty :: "extensions_map \<Rightarrow> string \<Rightarrow> ExtensionBucket" where
  "bucket_or_empty exts k = (case map_of exts k of None \<Rightarrow> emptyExtension | Some b \<Rightarrow> b)"

text \<open>
  Buckets add up field by field (the ratios of the left one are kept). The fold of a
  file adds the file's \<open>contribution\<close> to a bucket; \<open>contrib nm data k\<close> is what the
  file named \<open>nm\<close> adds to the bucket of key \<open>k\<close> (once as the wildcard, once as its
  extension), and \<open>total fs k\<close> what all the files of \<open>fs\<close> add to it.
\<close>

definition add_bucket :: "ExtensionBucket \<Rightarrow> ExtensionBucket \<Rightarrow> ExtensionBucket" where
  "add_bucket a b =
     a\<lparr>count := \<lparr>minified_c = minified_c (count a) + minified_c (count b),
                 unminified_c = unminified_c (count a) + unminified_c (count b),
                 both_c = both_c (count a) + both_c (count b)\<rparr>,
       size_e := \<lparr>minified_s = minified_s (size_e a) + minified_s (size_e b),
                  unminified_s = unminified_s (size_e a) + unminified_s (size_e b),
                  src = src (size_e a) + src (size_e b),
                  dist = dist (size_e a) + dist (size_e b),
                  gzip = gzip (size_e a) + gzip (size_e b)\<rparr>\<rparr>"

definition contribution :: "FileEntry \<Rightarrow> ExtensionBucket" where
  "contribution data =
     (let u = get_size (unminified data); m = get_size (minified data)
      in \<lparr>count = classify_increment u m \<lparr>minified_c = 0, unminified_c = 0, both_c = 0\<rparr>,
          size_e = \<lparr>minified_s = m, unminified_s = u,
                    src = (if u \<noteq> 0 then u else m),
                    dist = (if m \<noteq> 0 then m else u),
                    gzip = (case best_variant data m of None \<Rightarrow> 0 | Some v \<Rightarrow> gzipSize v)\<rparr>,
          minificationRatio = None, compressionRatio = None\<rparr>)"

definition contrib :: "string \<Rightarrow> FileEntry \<Rightarrow> string \<Rightarrow> ExtensionBucket" where
  "contrib nm data k =
     add_bucket (if k = ''*'' then contribution data else emptyExtension)
                (if k = extension_of nm then contribution data else emptyExtension)"

fun total :: "files_map \<Rightarrow> string \<Rightarrow> ExtensionBucket" where
  "total [] k = emptyExtension"
| "total ((nm, data) # rest) k = add_bucket (contrib nm data k) (total rest k)"



text \<open>
  For a numeric field \<open>p\<close> of a bucket: its value in the wildcard bucket, and its sum
  over the real extension buckets. \<open>additive p\<close> says that \<open>p\<close> is one of the summed
  fields.
\<close>

definition real_sum :: "(ExtensionBucket \<Rightarrow> nat) \<Rightarrow> extensions_map \<Rightarrow> nat" where
  "real_sum p exts = sum_list (map (\<lambda>(k, b). p b) (filter (\<lambda>(k, b). k \<noteq> ''*'') exts))"

definition wildcard :: "(ExtensionBucket \<Rightarrow> nat) \<Rightarrow> extensions_map \<Rightarrow> nat" where
  "wildcard p exts = p (bucket_or_empty exts ''*'')"

definition additive :: "(ExtensionBucket \<Rightarrow> nat) \<Rightarrow> bool" where
  "additive p \<longleftrightarrow> p emptyExtension = 0 \<and> (\<forall>a b. p (add_bucket a b) = p a + p b)"

lemmas run_defs = process_file_def determineCompressionSizeRatio_def best_variant_def get_size_def
  each_target_def fold_entry_def ensure_bucket_def emptyExtension_def jsdiv_def Let_def
  postProcessFiles_def gather_def record_file_def normalizeFilename_def isMinified_def
  default_options_def new_entry_def init_state_def

lemmas has_defs = lodash_has_def is_deep_def to_path_def files_val_def extensions_val_def
  entry_val_def bucket_val_def variant_val_def opt_property_def

section \<open>Properties of the normalizer\<close>

lemma replace_first_no_match:
  "\<not> regexp_test pat s \<Longrightarrow> replace_first pat rep s = s"
  by (induction s) auto

lemma replace_first_length:
  "regexp_test pat s \<Longrightarrow> length (replace_first pat [] s) + length pat = length s"
  by (induction s) (auto dest: prefix_length_le)

lemma regexp_test_short: "length s < length m \<Longrightarrow> \<not> regexp_test m s"
  by (induction s) (auto dest: prefix_length_le)

text \<open>
  A match that starts inside \<open>xs\<close> ends before the last character of the occurrence of
  \<open>m\<close> that follows \<open>xs\<close>.
\<close>

lemma prefix_shorten:
  assumes "prefix m (xs @ m @ s)" and "m \<noteq> []" and "xs \<noteq> []"
  shows "prefix m (xs @ butlast m)"
proof -
  define ys where "ys = xs @ butlast m"
  have len: "length m \<le> length ys"
    using assms(2,3) by (cases xs) (auto simp: ys_def)
  from assms(1) obtain zs where "xs @ m @ s = m @ zs"
    by (auto simp: prefix_def)
  then have "take (length m) (xs @ m @ s) = m"
    by (metis append_eq_conv_conj)
  moreover have "xs @ m @ s = ys @ (last m # s)"
    using assms(2) by (simp add: ys_def)
  ultimately have "take (length m) (ys @ (last m # s)) = m" by simp
  with len have "take (length m) ys = m" by simp
  then show ?thesis unfolding ys_def by (metis take_is_prefix)
qed

lemma replace_first_leftmost:
  "m \<noteq> [] \<Longrightarrow> \<not> regexp_test m (p @ butlast m) \<Longrightarrow>
     replace_first m rep (p @ m @ s) = p @ rep @ s"
proof (induction p)
  case Nil
  then show ?case by (cases m) auto
next
  case (Cons x p)
  from Cons.prems(2) have np: "\<not> prefix m ((x # p) @ butlast m)"
    and nr: "\<not> regexp_test m (p @ butlast m)" by auto
  have "\<not> prefix m ((x # p) @ m @ s)"
    using prefix_shorten[of m "x # p" s] np Cons.prems(1) by blast
  then show ?case using Cons.IH[OF Cons.prems(1) nr] by simp
qed

lemma regexp_test_leftmost:
  "regexp_test m f \<Longrightarrow> m \<noteq> [] \<Longrightarrow>
     \<exists>p s. f = p @ m @ s \<and> \<not> regexp_test m (p @ butlast m)"
proof (induction f)
  case Nil
  then show ?case by simp
next
  case (Cons c f)
  show ?case
  proof (cases "prefix m (c # f)")
    case True
    then obtain s where "c # f = [] @ m @ s" by (auto simp: prefix_def)
    moreover have "\<not> regexp_test m ([] @ butlast m)"
      using Cons.prems(2) by (simp add: regexp_test_short)
    ultimately show ?thesis by blast
  next
    case False
    with Cons.prems have "regexp_test m f" by simp
    from Cons.IH[OF this Cons.prems(2)] obtain p s where
      f: "f = p @ m @ s" and n: "\<not> regexp_test m (p @ butlast m)" by blast
    have "prefix ((c # p) @ butlast m) (c # f)"
      unfolding f
      by (metis append.assoc prefix_def append_butlast_last_id Cons.prems(2) Cons_eq_appendI)
    with False have "\<not> prefix m ((c # p) @ butlast m)"
      using prefix_order.trans by blast
    with n have "\<not> regexp_test m ((c # p) @ butlast m)" by simp
    moreover have "c # f = (c # p) @ m @ s" using f by simp
    ultimately show ?thesis by blast
  qed
qed

lemma isMinified_iff_changed:
  assumes "minifiedName opts \<noteq> []"
  shows "isMinified opts filename \<longleftrightarrow> normalizeFilename opts filename \<noteq> filename"
proof
  assume "isMinified opts filename"
  then have "length (normalizeFilename opts filename) + length (minifiedName opts) = length filename"
    by (simp add: isMinified_def normalizeFilename_def replace_first_length)
  with assms show "normalizeFilename opts filename \<noteq> filename"
    by (metis add_cancel_right_right length_0_conv)
next
  assume "normalizeFilename opts filename \<noteq> filename"
  then show "isMinified opts filename"
    using replace_first_no_match[of "minifiedName opts" filename "[]"]
    by (auto simp: isMinified_def normalizeFilename_def)
qed

text \<open>
  C6, as the claim states it, fails: \<open>replace\<close> with a pattern that has no \<open>g\<close> flag
  rewrites one match. In \<open>a.min.min.js\<close> the second marker stays, and the normalized
  name still tests as minified.
\<close>

theorem normalizeFilename_keeps_later_marker:
  "normalizeFilename default_options ''a.min.min.js'' = ''a.min.js'' \<and>
   isMinified default_options (normalizeFilename default_options ''a.min.min.js'')"
  by (simp add: normalizeFilename_def isMinified_def default_options_def)

text \<open>
  C6, amended: a name that matches a (non-empty, literal) marker splits at the leftmost
  occurrence of the marker into \<open>p\<close>, the marker and \<open>s\<close>, and normalization returns
  \<open>p @ s\<close>: exactly that occurrence is removed, whatever \<open>s\<close> contains. The result is a
  function of the options and the name alone, so every call on the same name agrees.
\<close>

theorem normalizeFilename_removes_leftmost:
  assumes "minifiedName opts \<noteq> []" and "isMinified opts filename"
  shows "\<exists>p s. filename = p @ minifiedName opts @ s \<and>
               \<not> isMinified opts (p @ butlast (minifiedName opts)) \<and>
               normalizeFilename opts filename = p @ s"
proof -
  from regexp_test_leftmost[of "minifiedName opts" filename] assms
  obtain p s where f: "filename = p @ minifiedName opts @ s"
    and n: "\<not> regexp_test (minifiedName opts) (p @ butlast (minifiedName opts))"
    by (auto simp: isMinified_def)
  have "normalizeFilename opts filename = p @ s"
    unfolding normalizeFilename_def f
    using replace_first_leftmost[OF assms(1) n, of "[]" s] by simp
  with f n show ?thesis by (auto simp: isMinified_def)
qed

theorem normalizeFilename_removes_leftmost_witness:
  "minifiedName default_options \<noteq> [] \<and> isMinified default_options ''a.min.min.js'' \<and>
   (\<exists>p s. ''a.min.min.js'' = p @ minifiedName default_options @ s \<and>
          \<not> isMinified default_options (p @ butlast (minifiedName default_options)) \<and>
          normalizeFilename default_options ''a.min.min.js'' = p @ s)"
proof -
  have a: "minifiedName default_options \<noteq> []"
    by (simp add: default_options_def)
  have b: "isMinified default_options ''a.min.min.js''"
    by (simp add: isMinified_def default_options_def)
  from normalizeFilename_removes_leftmost[OF a b] a b show ?thesis by blast
qed

section \<open>Properties of ingest\<close>

lemma has_path_empty_object: "has_path p (JObj []) = False"
  by (cases p) simp_all

lemma map_of_mapped_values:
  "map_of (map (\<lambda>(k, v). (k, f v)) xs) k = map_option f (map_of xs k)"
  by (induction xs) auto

lemma own_property_files_val: "own_property (files_val fs) k = own_key fs k"
  by (simp add: files_val_def own_key_def map_of_mapped_values)

lemma own_property_extensions_val: "own_property (extensions_val exts) k = own_key exts k"
  by (simp add: extensions_val_def own_key_def map_of_mapped_values)

text \<open>
  When \<open>record\<close> returns, the data is stored at the normalized key, under \<open>minified\<close>
  exactly when the name tests as minified, and nothing else changes. It returns unless
  \<open>_.has\<close> finds the normalized name without its being a key of \<open>files\<close>.
\<close>

lemma record_file_lookup:
  assumes "record_file L opts fs nm data = Inr fs'"
  shows "map_of fs' (normalizeFilename opts nm) =
     Some (let old = (case map_of fs (normalizeFilename opts nm) of
                        None \<Rightarrow> new_entry (normalizeFilename opts nm)
                      | Some e \<Rightarrow> e)
           in if isMinified opts nm then old\<lparr>minified := Some data\<rparr>
              else old\<lparr>unminified := Some data\<rparr>)"
  using assms
  by (auto simp: record_file_def Let_def AList.update_conv' lodash_has_def
        own_property_files_val own_key_def split: option.splits if_splits)

lemma record_file_other:
  assumes "record_file L opts fs nm data = Inr fs'" and "k \<noteq> normalizeFilename opts nm"
  shows "map_of fs' k = map_of fs k"
  using assms
  by (auto simp: record_file_def Let_def AList.update_conv' split: option.splits if_splits)

lemma record_file_returns_iff:
  "(\<exists>fs'. record_file L opts fs nm data = Inr fs') \<longleftrightarrow>
     (own_key fs (normalizeFilename opts nm) \<or>
      \<not> lodash_has L (files_val fs) (normalizeFilename opts nm))"
  by (auto simp: record_file_def Let_def AList.update_conv' own_key_def
        lodash_has_def own_property_files_val split: option.splits)

lemma default_isMinified_iff_changed:
  "isMinified default_options filename \<longleftrightarrow>
     normalizeFilename default_options filename \<noteq> filename"
  using isMinified_iff_changed[of default_options filename]
  by (simp add: default_options_def)

text \<open>
  C10, evaluated on the stream of \<open>app\<close> and then \<open>app.min.unminified\<close>. The first
  file is recorded as the unminified variant of the entry \<open>app\<close>. The second tests as
  minified and stripping the marker changes its name, to \<open>app.unminified\<close>. That name
  is no key of \<open>files\<close>, but it holds a dot, so \<open>_.has\<close> reads it as the path from
  \<open>app\<close> to \<open>unminified\<close> and finds the variant recorded before. No entry is created,
  \<open>files['app.unminified']\<close> is undefined, and the assignment of line 104 throws: the
  file is recorded under no key at all. So does the stream of \<open>app\<close> and
  \<open>app.unminified\<close>, whose second name the marker does not change.
\<close>

theorem record_throws_on_path_name:
  "gather L (\<lambda>c. 23) default_options (files init_state)
      \<lparr>relative = ''app'', contents = Some ''abc''\<rparr> =
     Inr [(''app'', \<lparr>name = ''app'', minified = None,
                      unminified = Some \<lparr>size_v = 3, gzipSize = 23\<rparr>,
                      minificationSizeRatio = None, compressionSizeRatio = None\<rparr>)] \<and>
   isMinified default_options ''app.min.unminified'' \<and>
   normalizeFilename default_options ''app.min.unminified'' = ''app.unminified'' \<and>
   gather L (\<lambda>c. 23) default_options
      [(''app'', \<lparr>name = ''app'', minified = None,
                   unminified = Some \<lparr>size_v = 3, gzipSize = 23\<rparr>,
                   minificationSizeRatio = None, compressionSizeRatio = None\<rparr>)]
      \<lparr>relative = ''app.min.unminified'', contents = Some ''ab''\<rparr> = Inl TypeError \<and>
   gather L (\<lambda>c. 23) default_options
      [(''app'', \<lparr>name = ''app'', minified = None,
                   unminified = Some \<lparr>size_v = 3, gzipSize = 23\<rparr>,
                   minificationSizeRatio = None, compressionSizeRatio = None\<rparr>)]
      \<lparr>relative = ''app.unminified'', contents = Some ''ab''\<rparr> = Inl TypeError \<and>
   ingest L (\<lambda>c. 23) default_options (files init_state)
      [\<lparr>relative = ''app'', contents = Some ''abc''\<rparr>,
       \<lparr>relative = ''app.min.unminified'', contents = Some ''ab''\<rparr>] = Inl TypeError"
  by (simp add: run_defs has_defs)

lemma gather_null: "contents file = None \<Longrightarrow> gather L gz opts fs file = Inr fs"
  by (simp add: gather_def)

lemma ingest_null_files:
  "list_all (\<lambda>file. contents file = None) stream \<Longrightarrow> ingest L gz opts fs stream = Inr fs"
  by (induction stream arbitrary: fs) (simp_all add: gather_null)

section \<open>Properties of the per-file ratios\<close>

lemma determine_variants:
  "determineCompressionSizeRatio file = Inr file' \<Longrightarrow>
     minified file' = minified file \<and> unminified file' = unminified file \<and>
     name file' = name file"
  by (auto simp: determineCompressionSizeRatio_def Let_def split: option.splits if_splits)

lemma determine_total:
  "get_size (unminified file) \<noteq> 0 \<or> get_size (minified file) \<noteq> 0 \<Longrightarrow>
     \<exists>file'. determineCompressionSizeRatio file = Inr file'"
  by (auto simp: determineCompressionSizeRatio_def Let_def best_variant_def get_size_def
           split: option.splits)

text \<open>
  C1, as the claim states it, fails: the entry below has both variants, the minified one
  empty (size 0). The guard \<open>unminified && minified\<close> is false, so
  \<open>minificationSizeRatio\<close> stays undefined where the claim asks for \<open>0 / 500\<close>.
\<close>

theorem minificationSizeRatio_skipped_for_empty_variant:
  "determineCompressionSizeRatio
     \<lparr>name = ''app.css'', minified = Some \<lparr>size_v = 0, gzipSize = 20\<rparr>,
      unminified = Some \<lparr>size_v = 500, gzipSize = 100\<rparr>,
      minificationSizeRatio = None, compressionSizeRatio = None\<rparr> =
   Inr \<lparr>name = ''app.css'', minified = Some \<lparr>size_v = 0, gzipSize = 20\<rparr>,
        unminified = Some \<lparr>size_v = 500, gzipSize = 100\<rparr>,
        minificationSizeRatio = None, compressionSizeRatio = Some (Fin (1 / 5))\<rparr> \<and>
   Some (jsdiv 0 500) \<noteq> (None :: jsnum option)"
  by (simp add: run_defs)

text \<open>
  C1, amended: when both variants are there with non-zero sizes \<open>B\<close> (minified) and
  \<open>A\<close> (unminified), the computation returns and sets \<open>minificationSizeRatio\<close> to
  \<open>B / A\<close>. When a variant is missing or has size 0, a computation that returns has
  not assigned \<open>minificationSizeRatio\<close>: the entry keeps what it had, which is undefined
  for an entry that \<open>record\<close> created.
\<close>

theorem minificationSizeRatio_both_nonzero:
  "(unminified file = Some a \<and> minified file = Some b \<and> size_v a \<noteq> 0 \<and> size_v b \<noteq> 0 \<longrightarrow>
      (\<exists>file'. determineCompressionSizeRatio file = Inr file' \<and>
               minificationSizeRatio file' = Some (jsdiv (size_v b) (size_v a)))) \<and>
   ((get_size (unminified file) = 0 \<or> get_size (minified file) = 0) \<and>
     determineCompressionSizeRatio file = Inr file' \<longrightarrow>
      minificationSizeRatio file' = minificationSizeRatio file)"
  by (auto simp: determineCompressionSizeRatio_def Let_def best_variant_def get_size_def
           split: option.splits if_splits)

theorem minificationSizeRatio_both_nonzero_witness:
  "(\<exists>file'. determineCompressionSizeRatio
              \<lparr>name = ''app.css'', minified = Some \<lparr>size_v = 400, gzipSize = 90\<rparr>,
               unminified = Some \<lparr>size_v = 500, gzipSize = 100\<rparr>,
               minificationSizeRatio = None, compressionSizeRatio = None\<rparr> = Inr file' \<and>
            minificationSizeRatio file' = Some (Fin (4 / 5))) \<and>
   get_size (minified (new_entry ''lib.js''\<lparr>unminified := Some \<lparr>size_v = 1000, gzipSize = 300\<rparr>\<rparr>)) = 0 \<and>
   determineCompressionSizeRatio
     (new_entry ''lib.js''\<lparr>unminified := Some \<lparr>size_v = 1000, gzipSize = 300\<rparr>\<rparr>) =
     Inr (new_entry ''lib.js''\<lparr>unminified := Some \<lparr>size_v = 1000, gzipSize = 300\<rparr>,
                              compressionSizeRatio := Some (Fin (3 / 10))\<rparr>) \<and>
   minificationSizeRatio
     (new_entry ''lib.js''\<lparr>unminified := Some \<lparr>size_v = 1000, gzipSize = 300\<rparr>,
                            compressionSizeRatio := Some (Fin (3 / 10))\<rparr>) = None"
  using
    minificationSizeRatio_both_nonzero[of
      "\<lparr>name = ''app.css'', minified = Some \<lparr>size_v = 400, gzipSize = 90\<rparr>,
        unminified = Some \<lparr>size_v = 500, gzipSize = 100\<rparr>,
        minificationSizeRatio = None, compressionSizeRatio = None\<rparr>"
      "\<lparr>size_v = 500, gzipSize = 100\<rparr>" "\<lparr>size_v = 400, gzipSize = 90\<rparr>"]
    minificationSizeRatio_both_nonzero[of
      "new_entry ''lib.js''\<lparr>unminified := Some \<lparr>size_v = 1000, gzipSize = 300\<rparr>\<rparr>" _ _
      "new_entry ''lib.js''\<lparr>unminified := Some \<lparr>size_v = 1000, gzipSize = 300\<rparr>,
                             compressionSizeRatio := Some (Fin (3 / 10))\<rparr>"]
  by (simp add: run_defs)




section \<open>Properties of the fold of one file\<close>

lemma fold_entry_count:
  assumes "fold_entry data u m entry = Inr entry'"
  shows "count entry' = classify_increment u m (count entry)"
  using assms
  by (auto simp: fold_entry_def Let_def classify_increment_def split: option.splits)

lemma each_target_Inr:
  assumes "map_of exts key = Some entry" "fold_entry data u m entry = Inr entry'"
  shows "each_target data u m key exts = Inr (AList.update key entry' exts)"
  using assms by (simp add: each_target_def)

text \<open>
  An own key is found by \<open>_.has\<close>. When the extension is an own key or is not found,
  the bucket read next is the stored one or a new, empty one.
\<close>

lemma own_key_lodash_has: "own_key exts k \<Longrightarrow> lodash_has L (extensions_val exts) k"
  by (simp add: lodash_has_def own_property_extensions_val)

lemma map_of_ensure_bucket:
  assumes "own_key exts e \<or> \<not> lodash_has L (extensions_val exts) e"
  shows "map_of (ensure_bucket L e exts) k =
     (if k = e then Some (bucket_or_empty exts e) else map_of exts k)"
proof (cases "own_key exts e")
  case True
  then show ?thesis
    using own_key_lodash_has[of exts e L]
    by (auto simp: ensure_bucket_def own_key_def bucket_or_empty_def)
next
  case False
  with assms have "\<not> lodash_has L (extensions_val exts) e" by simp
  with False show ?thesis
    by (simp add: ensure_bucket_def own_key_def bucket_or_empty_def AList.update_conv')
qed

lemma extension_of_empty_css: "extension_of ''empty.css'' = ''css''"
  by code_simp

lemma extension_of_star: "extension_of ''a.*'' = ''*''"
  by code_simp

lemma extension_of_app_css: "extension_of ''app.css'' = ''css''"
  by code_simp

text \<open>
  C7, evaluated on three files, each folded into the initial extensions map. The claim,
  like the comment that documents the counters (lines 61 to 63), sorts a file by the
  versions that exist; the three tests of the fold are on the sizes, read with default 0.
  \<^item> \<open>empty.css\<close>, an unminified-only file that is empty: both sizes read 0, no counter
    goes up in either bucket.
  \<^item> \<open>app.css\<close> with both versions, the minified one empty: \<open>count.unminified\<close> goes
    up, not \<open>count.both\<close>.
  \<^item> \<open>a.*\<close>: its extension is the wildcard key, both targets are the wildcard bucket
    and \<open>count.unminified\<close> goes up twice there.
\<close>

theorem count_not_incremented_once:
  "process_file L ''empty.css''
     \<lparr>name = ''empty.css'', minified = None, unminified = Some \<lparr>size_v = 0, gzipSize = 20\<rparr>,
      minificationSizeRatio = None, compressionSizeRatio = None\<rparr>
     [(''*'', emptyExtension)] =
   Inr (\<lparr>name = ''empty.css'', minified = None, unminified = Some \<lparr>size_v = 0, gzipSize = 20\<rparr>,
         minificationSizeRatio = None, compressionSizeRatio = Some PInf\<rparr>,
        [(''*'', \<lparr>count = \<lparr>minified_c = 0, unminified_c = 0, both_c = 0\<rparr>,
                  size_e = \<lparr>minified_s = 0, unminified_s = 0, src = 0, dist = 0, gzip = 20\<rparr>,
                  minificationRatio = None, compressionRatio = None\<rparr>),
         (''css'', \<lparr>count = \<lparr>minified_c = 0, unminified_c = 0, both_c = 0\<rparr>,
                  size_e = \<lparr>minified_s = 0, unminified_s = 0, src = 0, dist = 0, gzip = 20\<rparr>,
                  minificationRatio = None, compressionRatio = None\<rparr>)]) \<and>
   process_file L ''app.css''
     \<lparr>name = ''app.css'', minified = Some \<lparr>size_v = 0, gzipSize = 20\<rparr>,
      unminified = Some \<lparr>size_v = 500, gzipSize = 100\<rparr>,
      minificationSizeRatio = None, compressionSizeRatio = None\<rparr>
     [(''*'', emptyExtension)] =
   Inr (\<lparr>name = ''app.css'', minified = Some \<lparr>size_v = 0, gzipSize = 20\<rparr>,
         unminified = Some \<lparr>size_v = 500, gzipSize = 100\<rparr>,
         minificationSizeRatio = None, compressionSizeRatio = Some (Fin (1 / 5))\<rparr>,
        [(''*'', \<lparr>count = \<lparr>minified_c = 0, unminified_c = 1, both_c = 0\<rparr>,
                  size_e = \<lparr>minified_s = 0, unminified_s = 500, src = 500, dist = 500,
                             gzip = 100\<rparr>,
                  minificationRatio = None, compressionRatio = None\<rparr>),
         (''css'', \<lparr>count = \<lparr>minified_c = 0, unminified_c = 1, both_c = 0\<rparr>,
                  size_e = \<lparr>minified_s = 0, unminified_s = 500, src = 500, dist = 500,
                             gzip = 100\<rparr>,
                  minificationRatio = None, compressionRatio = None\<rparr>)]) \<and>
   process_file L ''a.*''
     \<lparr>name = ''a.*'', minified = None, unminified = Some \<lparr>size_v = 3, gzipSize = 23\<rparr>,
      minificationSizeRatio = None, compressionSizeRatio = None\<rparr>
     [(''*'', emptyExtension)] =
   Inr (\<lparr>name = ''a.*'', minified = None, unminified = Some \<lparr>size_v = 3, gzipSize = 23\<rparr>,
         minificationSizeRatio = None, compressionSizeRatio = Some (Fin (23 / 3))\<rparr>,
        [(''*'', \<lparr>count = \<lparr>minified_c = 0, unminified_c = 2, both_c = 0\<rparr>,
                  size_e = \<lparr>minified_s = 0, unminified_s = 6, src = 6, dist = 6, gzip = 46\<rparr>,
                  minificationRatio = None, compressionRatio = None\<rparr>)])"
  by (simp add: run_defs has_defs extension_of_empty_css extension_of_app_css extension_of_star)

section \<open>The fold of all files as a sum of contributions\<close>

lemma add_bucket_assoc: "add_bucket (add_bucket a b) c = add_bucket a (add_bucket b c)"
  by (simp add: add_bucket_def add.assoc)

lemma add_bucket_empty: "add_bucket a emptyExtension = a"
  by (simp add: add_bucket_def emptyExtension_def)

lemma determine_best:
  "determineCompressionSizeRatio file = Inr file' \<Longrightarrow>
     best_variant file (get_size (minified file)) \<noteq> None"
  by (auto simp: determineCompressionSizeRatio_def Let_def split: option.splits)

lemma determine_idem:
  "determineCompressionSizeRatio file = Inr file' \<Longrightarrow>
     determineCompressionSizeRatio file' = Inr file'"
  by (auto simp: determineCompressionSizeRatio_def Let_def best_variant_def
           split: option.splits if_splits)

lemma contribution_cong:
  "minified d' = minified d \<Longrightarrow> unminified d' = unminified d \<Longrightarrow> contribution d' = contribution d"
  by (simp add: contribution_def best_variant_def Let_def)

lemma fold_entry_add_aux:
  assumes "best_variant data m = Some v"
  shows "fold_entry data u m entry =
           Inr (add_bucket entry
                 \<lparr>count = classify_increment u m \<lparr>minified_c = 0, unminified_c = 0, both_c = 0\<rparr>,
                  size_e = \<lparr>minified_s = m, unminified_s = u,
                    src = (if u \<noteq> 0 then u else m),
                    dist = (if m \<noteq> 0 then m else u),
                    gzip = gzipSize v\<rparr>,
                  minificationRatio = None, compressionRatio = None\<rparr>)"
  unfolding fold_entry_def assms
  by (auto intro!: ExtensionBucket.equality counts.equality sizes.equality
           simp: add_bucket_def classify_increment_def Let_def)

lemma fold_entry_add:
  assumes "best_variant data (get_size (minified data)) \<noteq> None"
  shows "fold_entry data (get_size (unminified data)) (get_size (minified data)) entry =
           Inr (add_bucket entry (contribution data))"
proof -
  from assms obtain v where v: "best_variant data (get_size (minified data)) = Some v"
    by blast
  show ?thesis
    using fold_entry_add_aux[OF v] by (simp add: contribution_def v Let_def)
qed

lemma fold_entry_Inr_best:
  "fold_entry data u m entry = Inr entry' \<Longrightarrow> best_variant data m \<noteq> None"
  by (auto simp: fold_entry_def split: option.splits)


lemma add_bucket_empty_left_contribution:
  "add_bucket emptyExtension (contribution data) = contribution data"
  by (auto intro!: ExtensionBucket.equality counts.equality sizes.equality
           simp: add_bucket_def emptyExtension_def contribution_def Let_def)

lemma update_existing_keys:
  "map_of al k = Some v \<Longrightarrow> map fst (AList.update k v' al) = map fst al"
  by (auto simp: AList.update_keys dest: map_of_SomeD intro: rev_image_eqI)

lemma own_key_bucket_or_empty: "own_key exts k \<Longrightarrow> map_of exts k = Some (bucket_or_empty exts k)"
  by (auto simp: own_key_def bucket_or_empty_def)

lemma own_key_keys: "own_key E k \<longleftrightarrow> k \<in> set (map fst E)"
  by (simp add: own_key_def map_of_eq_None_iff)

lemma keys_ensure_bucket:
  assumes "own_key E e \<or> \<not> lodash_has L (extensions_val E) e"
  shows "map fst (ensure_bucket L e E) =
           (if e \<in> set (map fst E) then map fst E else map fst E @ [e])"
proof (cases "own_key E e")
  case True
  then show ?thesis
    using own_key_lodash_has[of E e L] by (simp add: ensure_bucket_def own_key_keys)
next
  case False
  with assms have "\<not> lodash_has L (extensions_val E) e" by simp
  with False show ?thesis
    unfolding own_key_keys by (simp add: ensure_bucket_def AList.update_keys)
qed

text \<open>
  The fold of a file whose ratios are computed, into a map that has the wildcard bucket,
  when the extension is an own key or is not found: it returns, and adds the file's
  contribution to the wildcard bucket and to the bucket of the extension.
\<close>

lemma process_file_step:
  assumes d: "determineCompressionSizeRatio data = Inr data'" and star: "own_key exts ''*''"
    and ok: "own_key exts (extension_of nm) \<or>
             \<not> lodash_has L (extensions_val exts) (extension_of nm)"
  shows "\<exists>exts'. process_file L nm data exts = Inr (data', exts') \<and>
           (\<forall>k. bucket_or_empty exts' k = add_bucket (bucket_or_empty exts k) (contrib nm data k)) \<and>
           map fst exts' =
             (if extension_of nm \<in> set (map fst exts) then map fst exts
              else map fst exts @ [extension_of nm]) \<and>
           own_key exts' ''*''"
proof -
  let ?e = "extension_of nm"
  let ?u = "get_size (unminified data')" and ?m = "get_size (minified data')"
  let ?c = "contribution data"
  from determine_variants[OF d] have
    v: "minified data' = minified data" "unminified data' = unminified data"
    by simp_all
  have c: "contribution data' = ?c"
    using v by (rule contribution_cong)
  have best: "best_variant data' ?m \<noteq> None"
    using determine_best[OF determine_idem[OF d]] .
  have fe: "fold_entry data' ?u ?m entry = Inr (add_bucket entry ?c)" for entry
    using fold_entry_add[OF best, of entry] c by simp
  let ?E1 = "ensure_bucket L ?e exts"
  let ?w = "bucket_or_empty exts ''*''"
  note me = map_of_ensure_bucket[OF ok]
  have s1: "map_of ?E1 ''*'' = Some ?w"
    using own_key_bucket_or_empty[OF star] by (simp add: me)
  let ?E2 = "AList.update ''*'' (add_bucket ?w ?c) ?E1"
  have t1: "each_target data' ?u ?m ''*'' ?E1 = Inr ?E2"
    using each_target_Inr[OF s1 fe] .
  let ?b = "if ?e = ''*'' then add_bucket ?w ?c else bucket_or_empty exts ?e"
  have s2: "map_of ?E2 ?e = Some ?b"
    by (simp add: AList.update_conv' me)
  let ?E3 = "AList.update ?e (add_bucket ?b ?c) ?E2"
  have t2: "each_target data' ?u ?m ?e ?E2 = Inr ?E3"
    using each_target_Inr[OF s2 fe] .
  have p: "process_file L nm data exts = Inr (data', ?E3)"
    using d t1 t2 by (simp add: process_file_def Let_def)
  have m3: "map_of ?E3 k =
      (if k = ?e then Some (add_bucket ?b ?c)
       else if k = ''*'' then Some (add_bucket ?w ?c) else map_of exts k)" for k
    by (simp add: AList.update_conv' me)
  have b3: "bucket_or_empty ?E3 k = add_bucket (bucket_or_empty exts k) (contrib nm data k)" for k
    unfolding bucket_or_empty_def[of ?E3] m3
    by (simp add: contrib_def add_bucket_assoc add_bucket_empty add_bucket_empty_left_contribution
          bucket_or_empty_def)
  have k3: "map fst ?E3 = map fst ?E1"
    using update_existing_keys[OF s2] update_existing_keys[OF s1] by simp
  have "own_key ?E3 ''*''"
    by (simp add: own_key_def m3)
  with p b3 k3 keys_ensure_bucket[OF ok] show ?thesis by metis
qed

lemma process_file_determine:
  "process_file L nm data exts = Inr (data', exts') \<Longrightarrow>
     determineCompressionSizeRatio data = Inr data'"
  by (auto simp: process_file_def Let_def split: sum.splits)

text \<open>
  A fold that returns has read the bucket of the extension: the extension was an own
  key, or was not found and got a new bucket.
\<close>

lemma process_file_bucket_found:
  assumes "process_file L nm data exts = Inr (data', exts')"
  shows "own_key exts (extension_of nm) \<or>
         \<not> lodash_has L (extensions_val exts) (extension_of nm)"
proof (rule ccontr)
  assume "\<not> ?thesis"
  then have n: "map_of exts (extension_of nm) = None"
    and h: "lodash_has L (extensions_val exts) (extension_of nm)"
    by (simp_all add: own_key_def)
  from h have e: "ensure_bucket L (extension_of nm) exts = exts"
    by (simp add: ensure_bucket_def)
  from assms n show False
    by (auto simp: process_file_def e each_target_def Let_def AList.update_conv'
             split: sum.splits option.splits if_splits)
qed

lemma process_file_Inr:
  assumes p: "process_file L nm data exts = Inr (data', exts')" and star: "own_key exts ''*''"
  shows "bucket_or_empty exts' k = add_bucket (bucket_or_empty exts k) (contrib nm data k)"
    and "map fst exts' =
           (if extension_of nm \<in> set (map fst exts) then map fst exts
            else map fst exts @ [extension_of nm])"
    and "own_key exts' ''*''"
  using process_file_step[OF process_file_determine[OF p] star process_file_bucket_found[OF p]]
    p by auto

lemma forOwn_files_ConsE:
  assumes "forOwn_files L ((nm, d) # rest) E = Inr (fs', E')"
  obtains d' E1 rest' where "process_file L nm d E = Inr (d', E1)"
    "forOwn_files L rest E1 = Inr (rest', E')" "fs' = (nm, d') # rest'"
  using assms by (auto split: sum.splits prod.splits)

lemma contrib_cong:
  "determineCompressionSizeRatio d = Inr d' \<Longrightarrow> contrib nm d' k = contrib nm d k"
  using determine_variants[of d d'] contribution_cong[of d' d] by (simp add: contrib_def)

lemma forOwn_files_total:
  assumes "forOwn_files L fs E = Inr (fs', E')" and "own_key E ''*''"
  shows "bucket_or_empty E' k = add_bucket (bucket_or_empty E k) (total fs k) \<and>
         own_key E' ''*'' \<and> total fs' k = total fs k"
  using assms
proof (induction fs arbitrary: E fs')
  case Nil
  then show ?case by (auto simp: add_bucket_empty)
next
  case (Cons x rest)
  obtain nm d where x: "x = (nm, d)" by (cases x)
  from Cons.prems(1)[unfolded x] obtain d' E1 rest' where
    p: "process_file L nm d E = Inr (d', E1)" and
    r: "forOwn_files L rest E1 = Inr (rest', E')" and
    f: "fs' = (nm, d') # rest'"
    by (rule forOwn_files_ConsE)
  have dd: "determineCompressionSizeRatio d = Inr d'"
    using process_file_determine[OF p] .
  have s: "bucket_or_empty E1 k = add_bucket (bucket_or_empty E k) (contrib nm d k)"
    and h: "own_key E1 ''*''"
    using process_file_Inr[OF p Cons.prems(2)] by simp_all
  from Cons.IH[OF r h] have
    i: "bucket_or_empty E' k = add_bucket (bucket_or_empty E1 k) (total rest k)" and
    h': "own_key E' ''*''" and t: "total rest' k = total rest k"
    by auto
  show ?case
    using i s h' t contrib_cong[OF dd, of nm k]
    by (simp add: x f add_bucket_assoc)
qed

lemma forOwn_files_keys:
  assumes "forOwn_files L fs E = Inr (fs', E')" and "own_key E ''*''"
  shows "set (map fst E) \<subseteq> set (map fst E') \<and>
         extension_of ` fst ` set fs \<subseteq> set (map fst E') \<and>
         (extension_of ` fst ` set fs \<subseteq> set (map fst E) \<longrightarrow> map fst E' = map fst E) \<and>
         (distinct (map fst E) \<longrightarrow> distinct (map fst E')) \<and>
         map fst fs' = map fst fs"
  using assms
proof (induction fs arbitrary: E fs')
  case Nil
  then show ?case by auto
next
  case (Cons x rest)
  obtain nm d where x: "x = (nm, d)" by (cases x)
  from Cons.prems(1)[unfolded x] obtain d' E1 rest' where
    p: "process_file L nm d E = Inr (d', E1)" and
    r: "forOwn_files L rest E1 = Inr (rest', E')" and
    f: "fs' = (nm, d') # rest'"
    by (rule forOwn_files_ConsE)
  have k1': "map fst E1 =
      (if extension_of nm \<in> set (map fst E) then map fst E else map fst E @ [extension_of nm])"
    and h: "own_key E1 ''*''"
    using process_file_Inr[OF p Cons.prems(2)] by simp_all
  from Cons.IH[OF r h] have
    a: "set (map fst E1) \<subseteq> set (map fst E')" and
    b: "extension_of ` fst ` set rest \<subseteq> set (map fst E')" and
    c: "extension_of ` fst ` set rest \<subseteq> set (map fst E1) \<longrightarrow> map fst E' = map fst E1" and
    dst: "distinct (map fst E1) \<longrightarrow> distinct (map fst E')" and
    e: "map fst rest' = map fst rest"
    by auto
  have 1: "set (map fst E) \<subseteq> set (map fst E')"
    using a k1' by (auto split: if_splits)
  have 2: "extension_of ` fst ` set (x # rest) \<subseteq> set (map fst E')"
    using a b k1' by (auto simp: x split: if_splits)
  have 3: "extension_of ` fst ` set (x # rest) \<subseteq> set (map fst E) \<longrightarrow> map fst E' = map fst E"
  proof
    assume sub: "extension_of ` fst ` set (x # rest) \<subseteq> set (map fst E)"
    then have "extension_of nm \<in> set (map fst E)" by (simp add: x)
    with k1' have eq: "map fst E1 = map fst E" by simp
    with sub c show "map fst E' = map fst E" by simp
  qed
  have 4: "distinct (map fst E) \<longrightarrow> distinct (map fst E')"
    using dst k1' by (auto split: if_splits)
  have 5: "map fst fs' = map fst (x # rest)"
    using e by (simp add: f x)
  from 1 2 3 4 5 show ?case by blast
qed


section \<open>Properties of aggregation\<close>

text \<open>
  C3, evaluated on a stream of one file named \<open>a.*\<close> (3 bytes, gzip size 23). Its
  extension is the reserved key \<open>*\<close>, so \<open>['*', extension]\<close> names the wildcard bucket
  twice: the file is counted twice there, and there is no real extension bucket at all.
  The wildcard totals (2 files, 6 bytes) are not the sums over the real buckets (0).
\<close>

theorem wildcard_counts_star_extension_twice:
  "gather L (\<lambda>c. 23) default_options (files init_state)
      \<lparr>relative = ''a.*'', contents = Some ''abc''\<rparr> =
     Inr [(''a.*'', \<lparr>name = ''a.*'', minified = None,
                      unminified = Some \<lparr>size_v = 3, gzipSize = 23\<rparr>,
                      minificationSizeRatio = None, compressionSizeRatio = None\<rparr>)] \<and>
   postProcessFiles L
     \<lparr>files = [(''a.*'', \<lparr>name = ''a.*'', minified = None,
                             unminified = Some \<lparr>size_v = 3, gzipSize = 23\<rparr>,
                             minificationSizeRatio = None, compressionSizeRatio = None\<rparr>)],
      extensions = extensions init_state\<rparr> =
   Inr \<lparr>files =
          [(''a.*'', \<lparr>name = ''a.*'', minified = None,
                      unminified = Some \<lparr>size_v = 3, gzipSize = 23\<rparr>,
                      minificationSizeRatio = None,
                      compressionSizeRatio = Some (Fin (23 / 3))\<rparr>)],
        extensions =
          [(''*'', \<lparr>count = \<lparr>minified_c = 0, unminified_c = 2, both_c = 0\<rparr>,
                    size_e = \<lparr>minified_s = 0, unminified_s = 6, src = 6, dist = 6, gzip = 46\<rparr>,
                    minificationRatio = None, compressionRatio = None\<rparr>)]\<rparr> \<and>
   wildcard (\<lambda>b. src (size_e b))
     [(''*'', \<lparr>count = \<lparr>minified_c = 0, unminified_c = 2, both_c = 0\<rparr>,
               size_e = \<lparr>minified_s = 0, unminified_s = 6, src = 6, dist = 6, gzip = 46\<rparr>,
               minificationRatio = None, compressionRatio = None\<rparr>)] = 6 \<and>
   real_sum (\<lambda>b. src (size_e b))
     [(''*'', \<lparr>count = \<lparr>minified_c = 0, unminified_c = 2, both_c = 0\<rparr>,
               size_e = \<lparr>minified_s = 0, unminified_s = 6, src = 6, dist = 6, gzip = 46\<rparr>,
               minificationRatio = None, compressionRatio = None\<rparr>)] = 0"
  by (simp add: run_defs has_defs extension_of_star wildcard_def real_sum_def
        bucket_or_empty_def)

lemma additive_fields:
  "additive (\<lambda>b. src (size_e b))" "additive (\<lambda>b. dist (size_e b))"
  "additive (\<lambda>b. gzip (size_e b))" "additive (\<lambda>b. minified_s (size_e b))"
  "additive (\<lambda>b. unminified_s (size_e b))" "additive (\<lambda>b. minified_c (count b))"
  "additive (\<lambda>b. unminified_c (count b))" "additive (\<lambda>b. both_c (count b))"
  by (simp_all add: additive_def add_bucket_def emptyExtension_def)

lemma sum_list_single:
  "distinct ks \<Longrightarrow> e \<in> set ks \<Longrightarrow> sum_list (map (\<lambda>k. if k = e then v else (0::nat)) ks) = v"
  by (induction ks) (auto simp: sum_list_0 intro: sum_list_0 cong: map_cong)

lemma total_real_sum:
  assumes p: "additive p" and d: "distinct ks" and s: "''*'' \<notin> set ks"
    and e: "extension_of ` fst ` set fs \<subseteq> set ks"
  shows "sum_list (map (\<lambda>k. p (total fs k)) ks) = p (total fs ''*'')"
  using e
proof (induction fs)
  case Nil
  then show ?case using p by (simp add: additive_def)
next
  case (Cons x rest)
  obtain nm dat where x: "x = (nm, dat)" by (cases x)
  let ?e = "extension_of nm" and ?c = "contribution dat"
  from Cons.prems have ein: "?e \<in> set ks" and rest: "extension_of ` fst ` set rest \<subseteq> set ks"
    by (auto simp: x)
  with s have ne: "?e \<noteq> ''*''" by auto
  have add: "p (add_bucket a b) = p a + p b" for a b
    using p by (simp add: additive_def)
  have z: "p emptyExtension = 0" using p by (simp add: additive_def)
  have ck: "p (contrib nm dat k) = (if k = ?e then p ?c else 0)" if "k \<in> set ks" for k
  proof -
    from that s have "k \<noteq> ''*''" by auto
    then show ?thesis by (simp add: contrib_def add z)
  qed
  have cs: "p (contrib nm dat ''*'') = p ?c"
    using ne by (simp add: contrib_def add z)
  have "sum_list (map (\<lambda>k. p (total (x # rest) k)) ks) =
          sum_list (map (\<lambda>k. p (contrib nm dat k)) ks) + sum_list (map (\<lambda>k. p (total rest k)) ks)"
    by (simp add: x add sum_list_addf)
  also have "sum_list (map (\<lambda>k. p (contrib nm dat k)) ks) =
               sum_list (map (\<lambda>k. if k = ?e then p ?c else 0) ks)"
    using ck by (simp cong: map_cong)
  also have "\<dots> = p ?c" using sum_list_single[OF d ein] .
  finally show ?case using Cons.IH[OF rest] cs by (simp add: x add)
qed

lemma alist_values_by_key:
  "distinct (map fst E) \<Longrightarrow>
     map (\<lambda>(k, b). g b) (filter (\<lambda>(k, b). P k) E) =
     map (\<lambda>k. g (bucket_or_empty E k)) (filter P (map fst E))"
proof (induction E)
  case Nil
  then show ?case by simp
next
  case (Cons x E)
  obtain k0 b0 where x: "x = (k0, b0)" by (cases x)
  from Cons.prems have nin: "k0 \<notin> set (map fst E)" and dE: "distinct (map fst E)"
    by (simp_all add: x)
  have "map (\<lambda>k. g (bucket_or_empty (x # E) k)) (filter P (map fst E)) =
        map (\<lambda>k. g (bucket_or_empty E k)) (filter P (map fst E))"
  proof (rule map_cong[OF refl])
    fix k assume "k \<in> set (filter P (map fst E))"
    then have "k \<in> set (map fst E)" by simp
    with nin have "k \<noteq> k0" by blast
    then show "g (bucket_or_empty (x # E) k) = g (bucket_or_empty E k)"
      by (simp add: bucket_or_empty_def x)
  qed
  with Cons.IH[OF dE] show ?case
    by (simp add: x bucket_or_empty_def)
qed

text \<open>
  The collision with the reserved key is the only way to break the invariant: from the
  initial extensions map, when no file has the extension \<open>*\<close>, every summed field of
  the wildcard bucket equals the sum of that field over the real extension buckets.
\<close>

lemma wildcard_lockstep:
  assumes fresh: "extensions s = extensions init_state"
    and run: "postProcessFiles L s = Inr s'"
    and nostar: "''*'' \<notin> extension_of ` fst ` set (files s)"
    and p: "additive p"
  shows "real_sum p (extensions s') = wildcard p (extensions s')"
proof -
  let ?E0 = "[(''*'', emptyExtension)]"
  have e0: "extensions s = ?E0" using fresh by (simp add: init_state_def)
  from run obtain fs' E' where r: "forOwn_files L (files s) ?E0 = Inr (fs', E')"
    and s': "extensions s' = E'"
    by (auto simp: postProcessFiles_def e0 split: sum.splits prod.splits)
  have h0: "own_key ?E0 ''*''" by (simp add: own_key_def)
  note k = forOwn_files_keys[OF r h0]
  have d: "distinct (map fst E')" using k by simp
  let ?ks = "filter (\<lambda>k. k \<noteq> ''*'') (map fst E')"
  have b: "bucket_or_empty E' k = add_bucket emptyExtension (total (files s) k)" for k
    using forOwn_files_total[OF r h0, of k] by (simp add: bucket_or_empty_def)
  have pz: "p (add_bucket emptyExtension t) = p t" for t
    using p by (simp add: additive_def)
  have sub: "extension_of ` fst ` set (files s) \<subseteq> set ?ks"
  proof
    fix e assume e: "e \<in> extension_of ` fst ` set (files s)"
    with k have "e \<in> set (map fst E')" by blast
    moreover from e nostar have "e \<noteq> ''*''" by blast
    ultimately show "e \<in> set ?ks" by simp
  qed
  have "real_sum p E' = sum_list (map (\<lambda>k. p (bucket_or_empty E' k)) ?ks)"
    unfolding real_sum_def using alist_values_by_key[OF d, of p "\<lambda>k. k \<noteq> ''*''"] by simp
  also have "\<dots> = sum_list (map (\<lambda>k. p (total (files s) k)) ?ks)"
    by (simp add: b pz)
  also have "\<dots> = p (total (files s) ''*'')"
    using total_real_sum[OF p _ _ sub] d by simp
  also have "\<dots> = wildcard p E'"
    by (simp add: wildcard_def b pz)
  finally show ?thesis by (simp add: s')
qed

text \<open>
  C5, evaluated on a stream of one empty file named \<open>a.min.js\<close> (\<open>gzipSize.sync\<close> gives
  20 for empty contents, the value plays no part). The entry has a minified variant of
  size 0 and no unminified one; \<open>determineCompressionSizeRatio\<close> takes the size 0 as
  "no minified variant", reads \<open>file['unminified'].gzipSize\<close> and throws. The last
  conjunct is the other half of the claim: an empty unminified-only file gets the ratio
  \<open>20 / 0\<close>, which is \<open>Infinity\<close>, truthy, and printed as a percentage, not as \<open>--\<close>.
\<close>

theorem empty_minified_only_file_throws:
  "gather L (\<lambda>c. 20) default_options (files init_state)
      \<lparr>relative = ''a.min.js'', contents = Some []\<rparr> =
     Inr [(''a.js'', \<lparr>name = ''a.js'', minified = Some \<lparr>size_v = 0, gzipSize = 20\<rparr>,
                     unminified = None, minificationSizeRatio = None,
                     compressionSizeRatio = None\<rparr>)] \<and>
   postProcessFiles L
     \<lparr>files = [(''a.js'', \<lparr>name = ''a.js'', minified = Some \<lparr>size_v = 0, gzipSize = 20\<rparr>,
                            unminified = None, minificationSizeRatio = None,
                            compressionSizeRatio = None\<rparr>)],
      extensions = extensions init_state\<rparr> = Inl TypeError \<and>
   report L
     \<lparr>files = [(''a.js'', \<lparr>name = ''a.js'', minified = Some \<lparr>size_v = 0, gzipSize = 20\<rparr>,
                            unminified = None, minificationSizeRatio = None,
                            compressionSizeRatio = None\<rparr>)],
      extensions = extensions init_state\<rparr> = Inl TypeError \<and>
   map_sum id (\<lambda>f. printPerc (compressionSizeRatio f))
     (determineCompressionSizeRatio
        \<lparr>name = ''empty.css'', minified = None, unminified = Some \<lparr>size_v = 0, gzipSize = 20\<rparr>,
         minificationSizeRatio = None, compressionSizeRatio = None\<rparr>) = Inr (Percent PInf)"
  by (simp add: run_defs has_defs report_def aggregate_def printPerc_def)

text \<open>
  An entry of that kind is what makes the ratio computation throw. With the wildcard
  bucket in place and no extension that reads as a path, \<open>postProcessFiles\<close> returns
  exactly when every entry has a minified variant of non-zero size or an unminified
  variant.
\<close>

lemma determine_returns_iff:
  "(\<exists>file'. determineCompressionSizeRatio file = Inr file') \<longleftrightarrow>
     (get_size (minified file) \<noteq> 0 \<or> unminified file \<noteq> None)"
  by (auto simp: determineCompressionSizeRatio_def Let_def best_variant_def get_size_def
           split: option.splits)

lemma forOwn_files_returns_iff:
  assumes "own_key E ''*''"
    and "list_all (\<lambda>(nm, d). \<not> is_deep L (extension_of nm)) fs"
  shows "(\<exists>r. forOwn_files L fs E = Inr r) \<longleftrightarrow>
           list_all (\<lambda>(nm, d). get_size (minified d) \<noteq> 0 \<or> unminified d \<noteq> None) fs"
  using assms
proof (induction fs arbitrary: E)
  case Nil
  then show ?case by simp
next
  case (Cons x rest)
  obtain nm d where x: "x = (nm, d)" by (cases x)
  from Cons.prems(2) have nd: "\<not> is_deep L (extension_of nm)"
    and rest: "list_all (\<lambda>(nm, d). \<not> is_deep L (extension_of nm)) rest"
    by (simp_all add: x)
  show ?case
  proof (cases "determineCompressionSizeRatio d")
    case (Inl e)
    then have "\<not> (get_size (minified d) \<noteq> 0 \<or> unminified d \<noteq> None)"
      using determine_returns_iff[of d] by auto
    moreover have "forOwn_files L (x # rest) E = Inl e"
      using Inl by (simp add: x process_file_def)
    ultimately show ?thesis by (simp add: x)
  next
    case (Inr d')
    then have ok: "get_size (minified d) \<noteq> 0 \<or> unminified d \<noteq> None"
      using determine_returns_iff[of d] by blast
    have found: "own_key E (extension_of nm) \<or>
        \<not> lodash_has L (extensions_val E) (extension_of nm)"
      using nd by (simp add: lodash_has_def own_property_extensions_val)
    from process_file_step[OF Inr Cons.prems(1) found] obtain E1 where
      p: "process_file L nm d E = Inr (d', E1)" and h: "own_key E1 ''*''"
      by blast
    have "(\<exists>r. forOwn_files L (x # rest) E = Inr r) \<longleftrightarrow> (\<exists>r. forOwn_files L rest E1 = Inr r)"
      using p by (auto simp: x split: sum.splits)
    with Cons.IH[OF h rest] ok show ?thesis by (simp add: x)
  qed
qed

lemma postProcessFiles_returns_iff:
  assumes "own_key (extensions s) ''*''"
    and "list_all (\<lambda>(nm, d). \<not> is_deep L (extension_of nm)) (files s)"
  shows "(\<exists>s'. postProcessFiles L s = Inr s') \<longleftrightarrow>
           list_all (\<lambda>(nm, d). get_size (minified d) \<noteq> 0 \<or> unminified d \<noteq> None) (files s)"
  using forOwn_files_returns_iff[OF assms, of]
  by (auto simp: postProcessFiles_def split: sum.splits)

section \<open>Properties of the extension ratios\<close>

text \<open>
  What \<open>postProcessExtensions\<close> stores in a bucket: every bucket is kept, with the size
  ratio \<open>size.dist / size.src\<close>, the compression ratio \<open>size.gzip / size.src\<close>, and the
  count ratio \<open>(count.minified + count.both)\<close> over what \<open>_.sum(data.count)\<close> returns.
\<close>

lemma map_of_set_ratios:
  "map_of (map (\<lambda>(k, data). (k, set_ratios L data)) E) k =
     map_option (set_ratios L) (map_of E k)"
  by (induction E) auto


lemma postProcessExtensions_lookup:
  "map_of (extensions (postProcessExtensions L s)) k =
     map_option (set_ratios L) (map_of (extensions s) k)"
  by (simp add: postProcessExtensions_def map_of_set_ratios)

lemma set_ratios_fields:
  "minificationRatio (set_ratios L d) =
     Some \<lparr>count_r = jsdiv (minified_c (count d) + both_c (count d)) (sum_object L (count d)),
           size_r = jsdiv (dist (size_e d)) (src (size_e d))\<rparr>"
  "compressionRatio (set_ratios L d) = Some (jsdiv (gzip (size_e d)) (src (size_e d)))"
  "count (set_ratios L d) = count d"
  "size_e (set_ratios L d) = size_e d"
  by (simp_all add: set_ratios_def Let_def)

lemma extension_of_a_css: "extension_of ''a.css'' = ''css''"
  by code_simp

text \<open>
  C4, evaluated on the stream of \<open>a.min.css\<close> (400 bytes, gzip size 90) and an empty
  \<open>empty.css\<close> (gzip size 20). Two files are folded into the bucket \<open>css\<close> and one of
  them has a minified form, so the claim's \<open>minificationRatio.count\<close> is \<open>1 / 2\<close>. The
  code divides by \<open>_.sum(data.count)\<close>. Where \<open>_.sum\<close> sums the values of an object,
  this is the sum of the three counters, which is 1 because the empty file was counted
  in none of them: the ratio is 1. Where \<open>_.sum\<close> sums arrays only, it is 0 and the
  ratio is \<open>1 / 0\<close>, \<open>Infinity\<close>. The two other ratios are the claim's: \<open>400 / 400\<close> and
  \<open>110 / 400\<close>.
\<close>

theorem count_ratio_not_per_file:
  "ingest L (\<lambda>c. if c = [] then 20 else 90) default_options (files init_state)
      [\<lparr>relative = ''a.min.css'', contents = Some (replicate 400 CHR ''x'')\<rparr>,
       \<lparr>relative = ''empty.css'', contents = Some []\<rparr>] =
     Inr [(''a.css'', \<lparr>name = ''a.css'', minified = Some \<lparr>size_v = 400, gzipSize = 90\<rparr>,
                      unminified = None, minificationSizeRatio = None,
                      compressionSizeRatio = None\<rparr>),
          (''empty.css'', \<lparr>name = ''empty.css'', minified = None,
                          unminified = Some \<lparr>size_v = 0, gzipSize = 20\<rparr>,
                          minificationSizeRatio = None, compressionSizeRatio = None\<rparr>)] \<and>
   map_sum id (\<lambda>s. map_of (extensions s) ''css'')
     (aggregate L
        \<lparr>files =
           [(''a.css'', \<lparr>name = ''a.css'', minified = Some \<lparr>size_v = 400, gzipSize = 90\<rparr>,
                         unminified = None, minificationSizeRatio = None,
                         compressionSizeRatio = None\<rparr>),
            (''empty.css'', \<lparr>name = ''empty.css'', minified = None,
                             unminified = Some \<lparr>size_v = 0, gzipSize = 20\<rparr>,
                             minificationSizeRatio = None, compressionSizeRatio = None\<rparr>)],
         extensions = extensions init_state\<rparr>) =
     Inr (Some \<lparr>count = \<lparr>minified_c = 1, unminified_c = 0, both_c = 0\<rparr>,
                size_e = \<lparr>minified_s = 400, unminified_s = 0, src = 400, dist = 400,
                           gzip = 110\<rparr>,
                minificationRatio =
                  Some \<lparr>count_r = (if sums_objects L then Fin 1 else PInf), size_r = Fin 1\<rparr>,
                compressionRatio = Some (Fin (11 / 40))\<rparr>) \<and>
   (if sums_objects L then Fin 1 else PInf) \<noteq> jsdiv 1 2"
  by (simp add: run_defs has_defs aggregate_def postProcessExtensions_def set_ratios_def
        sum_object_def sum_count_def extension_of_a_css extension_of_empty_css)

section \<open>Properties of the reporter\<close>

text \<open>
  C9: when the files map is empty, \<open>report\<close> returns with the state as it was (no entry
  and no bucket touched, no ratio computed) and its whole output is the one notice
  \<open>no data\<close>; no line of it is a table.
\<close>

theorem report_no_data:
  assumes "files s = []"
  shows "\<exists>out. report L s = Inr (s, out) \<and> out = [GutilLog ''no data''] \<and>
               filter is_table out = []"
  using assms by (simp add: report_def)

theorem report_no_data_witness:
  "files init_state = [] \<and>
   report \<lparr>sums_objects = True, keeps_empty_keys = True, bracket_deep = (\<lambda>k. False),
           bracket_path = (\<lambda>k. [])\<rparr> init_state =
     Inr (init_state, [GutilLog ''no data'']) \<and>
   filter is_table [GutilLog ''no data''] = []"
  using report_no_data[of init_state] by (simp add: init_state_def)

text \<open>
  By contrast, a report on a non-empty files map that returns has run aggregation and
  written its three tables.
\<close>

lemma is_table_missing:
  "filter is_table (LogMissing n m # map (\<lambda>file. LogMissingFile (name file)) xs) = []"
  by (induction xs) auto

lemma report_three_tables:
  assumes "files s \<noteq> []" and "report L s = Inr (s', out)"
  shows "length (filter is_table out) = 3 \<and> aggregate L s = Inr s'"
  using assms
  by (auto simp: report_def Let_def is_table_missing split: sum.splits if_splits)

section \<open>Running aggregation twice\<close>







end
